theory Spec2Isabelle
  imports Complex_Main
begin

section \<open>The sketch: data model\<close>

text \<open>
  The program is a p5.js sketch (\<^verbatim>\<open>src/sketchToPerlin.js\<close>). Its numbers are modelled as
  reals, with exact arithmetic: the properties below say which values are computed from which,
  and in which order, and rounding is not modelled. With the gap 20 of the sketch the centres
  of the grids are small integers, which the sketch computes exactly as well; with a gap whose
  multiples are not exact in the sketch's double precision (a very small one, or a third of
  1024) the loops of the sketch can visit other cells than the loops below, or not return.

  The host library is not part of the repository. Its drawing primitives are modelled as a
  log of the calls the sketch makes, in order; \<^verbatim>\<open>noise\<close> is a parameter of every operation
  that samples it (a fixed function of its two arguments), and the value returned by
  \<^verbatim>\<open>random(1000)\<close> is a parameter of the operation that draws it. Calls to \<^verbatim>\<open>noise\<close> and
  \<^verbatim>\<open>random\<close> are logged with their arguments, like the drawing calls.
\<close>

record point =
  ptx :: real
  pty :: real

datatype call =
    NoStroke
  | NoFill
  | Fill real
  | Stroke real
  | StrokeWeight real
  | Rect real real real real
  | Circle real real real
  | Line real real real real
  | LineUndefined
  | TextSize real
  | TextLabel string real real
  | Random real
  | Noise real real

text \<open>
  \<open>LineUndefined\<close> stands for a call of \<^verbatim>\<open>line\<close> with an argument that is still
  \<^verbatim>\<open>undefined\<close> (or the NaN computed from it).

  The global variables of the sketch, and the log of host calls.
\<close>

record sketch =
  xScale :: real
  yScale :: real
  gap :: real
  offsetR :: real
  offsetA :: real
  drawing :: "point list"
  lastClickTime :: real
  doubleClickThreshold :: real
  calls :: "call list"

definition initial :: sketch where
  "initial = \<lparr> xScale = 15 / 1000, yScale = 2 / 100, gap = 20, offsetR = 100, offsetA = 200,
     drawing = [], lastClickTime = 0, doubleClickThreshold = 300, calls = [] \<rparr>"

text \<open>
  The local variables of \<^verbatim>\<open>f\<close> and \<^verbatim>\<open>translateAToB\<close>, on top of the globals:
  \<^verbatim>\<open>let prevX, prevY;\<close> start out \<^verbatim>\<open>undefined\<close> (\<open>None\<close>). The field \<open>points\<close> is a history
  variable that the source does not have: it records every pair \<^verbatim>\<open>(newX, newY)\<close> the loop
  computes, in order (the source keeps only the latest one, in \<^verbatim>\<open>prevX, prevY\<close>). It is the
  sequence that the specification's \<^verbatim>\<open>transformStroke\<close> returns.
\<close>

record frame = sketch +
  prevX :: "real option"
  prevY :: "real option"
  points :: "point list"

definition enter :: "sketch \<Rightarrow> frame" where
  "enter s = sketch.extend s \<lparr> prevX = None, prevY = None, points = [] \<rparr>"

definition leave :: "frame \<Rightarrow> sketch" where
  "leave fr = sketch.truncate fr"

text \<open>The host's \<^verbatim>\<open>height\<close>, fixed by \<^verbatim>\<open>createCanvas(1024, 1536)\<close>.\<close>

definition height :: real where
  "height = 1536"

definition emit :: "call list \<Rightarrow> 'a sketch_scheme \<Rightarrow> 'a sketch_scheme" where
  "emit cs s = s\<lparr>calls := calls s @ cs\<rparr>"

text \<open>
  Modelled from the spec: the host's linear remapping \<^verbatim>\<open>map(n, start1, stop1, start2, stop2)\<close>,
  which the specification calls \<^verbatim>\<open>lerp\<close>; the sketch only calls it with the source range
  \<open>0..1\<close>.
\<close>

definition map_range :: "real \<Rightarrow> real \<Rightarrow> real \<Rightarrow> real \<Rightarrow> real \<Rightarrow> real" where
  "map_range n start1 stop1 start2 stop2 =
     (n - start1) / (stop1 - start1) * (stop2 - start2) + start2"

text \<open>
  Modelled from the spec: the contract of the host's \<^verbatim>\<open>noise\<close>, whose code is not part of
  the repository: every value lies in \<open>[0, 1)\<close>.
\<close>

definition noise_in_range :: "(real \<Rightarrow> real \<Rightarrow> real) \<Rightarrow> bool" where
  "noise_in_range noise = (\<forall>a b. 0 \<le> noise a b \<and> noise a b < 1)"

section \<open>Loops\<close>

text \<open>
  A \<^verbatim>\<open>for (let v = init; cond; v = next) body\<close> loop over a numeric variable. The loop
  need not terminate: a loop that runs forever has the value \<open>None\<close>.
\<close>

partial_function (option) forLoop ::
  "(real \<Rightarrow> 's \<Rightarrow> bool) \<Rightarrow> (real \<Rightarrow> 's \<Rightarrow> real) \<Rightarrow> (real \<Rightarrow> 's \<Rightarrow> 's option)
    \<Rightarrow> real \<Rightarrow> 's \<Rightarrow> 's option" where
  "forLoop cond next body v s =
     (if cond v s
      then Option.bind (body v s) (\<lambda>s'. forLoop cond next body (next v s') s')
      else Some s)"

text \<open>
  The three grid loops of the sketch have one shape:
  \<^verbatim>\<open>for (let x = x0 + gap / 2; x < x1; x += gap)
    for (let y = y0 + gap / 2; y < y1; y += gap) body\<close>
  with \<^verbatim>\<open>gap\<close> read from the global at every step.
\<close>

definition gridLoop ::
  "real \<Rightarrow> real \<Rightarrow> real \<Rightarrow> real \<Rightarrow> (real \<Rightarrow> real \<Rightarrow> 'a sketch_scheme \<Rightarrow> 'a sketch_scheme)
    \<Rightarrow> 'a sketch_scheme \<Rightarrow> 'a sketch_scheme option" where
  "gridLoop x0 x1 y0 y1 body s =
     forLoop (\<lambda>x s. x < x1) (\<lambda>x s. x + gap s)
       (\<lambda>x s. forLoop (\<lambda>y s. y < y1) (\<lambda>y s. y + gap s) (\<lambda>y s. Some (body x y s))
                 (y0 + gap s / 2) s)
       (x0 + gap s / 2) s"

section \<open>The operations of the sketch\<close>

subsection \<open>\<^verbatim>\<open>dotGridR\<close> and \<^verbatim>\<open>dotGridA\<close>\<close>

definition dotGridR_cell :: "(real \<Rightarrow> real \<Rightarrow> real) \<Rightarrow> real \<Rightarrow> real \<Rightarrow> sketch \<Rightarrow> sketch" where
  "dotGridR_cell noise x y s =
     (let a = (x + offsetR s) * xScale s;
          b = (y + offsetR s) * yScale s;
          noiseValue = noise a b;
          diameter = noiseValue * gap s
      in emit [Noise a b, Circle x y diameter] s)"

definition dotGridR :: "(real \<Rightarrow> real \<Rightarrow> real) \<Rightarrow> real \<Rightarrow> sketch \<Rightarrow> sketch option" where
  "dotGridR noise r s =
     (let s1 = emit [NoStroke, Fill 0, Fill 255, Rect 512 0 512 512, Fill 0] s;
          s2 = (emit [Random 1000] s1)\<lparr>offsetR := r\<rparr>
      in gridLoop 512 1024 0 (height / 3) (dotGridR_cell noise) s2)"

definition dotGridA_cell :: "(real \<Rightarrow> real \<Rightarrow> real) \<Rightarrow> real \<Rightarrow> real \<Rightarrow> sketch \<Rightarrow> sketch" where
  "dotGridA_cell noise x y s =
     (let a = (x + offsetA s) * xScale s;
          b = (y + offsetA s) * yScale s;
          noiseValue = noise a b;
          diameter = noiseValue * gap s
      in emit [Noise a b, Circle x y diameter] s)"

definition dotGridA :: "(real \<Rightarrow> real \<Rightarrow> real) \<Rightarrow> real \<Rightarrow> sketch \<Rightarrow> sketch option" where
  "dotGridA noise r s =
     (let s1 = emit [NoStroke, Fill 0, Fill 255, Rect 512 512 512 512, Fill 0] s;
          s2 = (emit [Random 1000] s1)\<lparr>offsetA := r\<rparr>
      in gridLoop 512 1024 512 1024 (dotGridA_cell noise) s2)"

subsection \<open>\<^verbatim>\<open>f\<close> and \<^verbatim>\<open>translateAToB\<close>\<close>

text \<open>
  A call of \<^verbatim>\<open>line\<close> whose first two arguments come from \<^verbatim>\<open>prevX, prevY\<close>, and the
  truth value JavaScript gives a number or \<^verbatim>\<open>undefined\<close> in a condition.
\<close>

fun line_call :: "real option \<Rightarrow> real option \<Rightarrow> real \<Rightarrow> real \<Rightarrow> call" where
  "line_call (Some a) (Some b) c d = Line a b c d"
| "line_call _ _ c d = LineUndefined"

fun truthy :: "real option \<Rightarrow> bool" where
  "truthy None = False"
| "truthy (Some v) = (v \<noteq> 0)"

definition f_body :: "(real \<Rightarrow> real \<Rightarrow> real) \<Rightarrow> nat \<Rightarrow> frame \<Rightarrow> frame" where
  "f_body noise i s =
     (let pt = drawing s ! i;
          a = (ptx pt + offsetR s) * xScale s;
          b = (pty pt + offsetR s) * yScale s;
          noiseValue = noise a b;
          s1 = emit [Noise a b] s;
          newX = ptx pt + map_range noiseValue 0 1 (-10) 10;
          newY = pty pt + map_range noiseValue 0 1 (-10) 10;
          s2 = (if i > 0
                then emit [Stroke 0, StrokeWeight 10,
                       line_call (prevX s1) (map_option (\<lambda>v. v + 512) (prevY s1))
                         newX (newY + 512)] s1
                else s1)
      in s2\<lparr>prevX := Some newX, prevY := Some newY,
             points := points s2 @ [\<lparr>ptx = newX, pty = newY\<rparr>]\<rparr>)"

text \<open>
  The loop \<^verbatim>\<open>for (let i = 0; i < drawing.length; i++)\<close>; the index stays inside the
  array, so \<^verbatim>\<open>drawing[i]\<close> is always an element.
\<close>

function f_loop :: "(real \<Rightarrow> real \<Rightarrow> real) \<Rightarrow> nat \<Rightarrow> frame \<Rightarrow> frame" where
  "f_loop noise i s =
     (if i < length (drawing s) then f_loop noise (i + 1) (f_body noise i s) else s)"
  by pat_completeness auto
termination
  by (relation "measure (\<lambda>(noise, i, s). length (drawing s) - i)")
     (auto simp: f_body_def Let_def emit_def)

definition f_run :: "(real \<Rightarrow> real \<Rightarrow> real) \<Rightarrow> sketch \<Rightarrow> frame" where
  "f_run noise s = f_loop noise 0 (enter (emit [Fill 255, Rect 0 512 512 512, Fill 0] s))"

definition f :: "(real \<Rightarrow> real \<Rightarrow> real) \<Rightarrow> sketch \<Rightarrow> sketch" where
  "f noise s = leave (f_run noise s)"

text \<open>The sequence of transformed points that \<^verbatim>\<open>f\<close> computes.\<close>

definition f_points :: "(real \<Rightarrow> real \<Rightarrow> real) \<Rightarrow> sketch \<Rightarrow> point list" where
  "f_points noise s = points (f_run noise s)"

definition translateAToB_cell :: "(real \<Rightarrow> real \<Rightarrow> real) \<Rightarrow> real \<Rightarrow> real \<Rightarrow> frame \<Rightarrow> frame" where
  "translateAToB_cell noise x y s =
     (let a = (x + offsetA s) * xScale s;
          b = (y + offsetA s) * yScale s;
          noiseValue = noise a b;
          s1 = emit [Noise a b] s;
          newX = x + map_range noiseValue 0 1 (-10) 10;
          newY = y + map_range noiseValue 0 1 (-10) 10;
          s2 = (if truthy (prevX s1) \<and> truthy (prevY s1)
                then emit [Stroke 0, StrokeWeight 10,
                       line_call (map_option (\<lambda>v. v - 512) (prevX s1))
                         (map_option (\<lambda>v. v + 512) (prevY s1)) (newX - 512) (newY + 512)] s1
                else s1)
      in s2\<lparr>prevX := Some newX, prevY := Some newY,
             points := points s2 @ [\<lparr>ptx = newX, pty = newY\<rparr>]\<rparr>)"

definition translateAToB_run :: "(real \<Rightarrow> real \<Rightarrow> real) \<Rightarrow> sketch \<Rightarrow> frame option" where
  "translateAToB_run noise s =
     gridLoop 512 1024 512 1024 (translateAToB_cell noise)
       (enter (emit [Fill 255, Rect 0 1024 512 512] s))"

definition translateAToB :: "(real \<Rightarrow> real \<Rightarrow> real) \<Rightarrow> sketch \<Rightarrow> sketch option" where
  "translateAToB noise s = map_option leave (translateAToB_run noise s)"

definition translateAToB_points :: "(real \<Rightarrow> real \<Rightarrow> real) \<Rightarrow> sketch \<Rightarrow> point list option" where
  "translateAToB_points noise s = map_option points (translateAToB_run noise s)"

subsection \<open>The board, the reset and the event handlers\<close>

definition drawBoard :: "sketch \<Rightarrow> sketch" where
  "drawBoard s = emit
     [Stroke 0, StrokeWeight 2, NoFill,
      Rect 0 0 512 512, Fill 255, Rect 10 10 40 40, Fill 0, TextSize 32,
      TextLabel ''L'' 20 50,
      NoFill, Rect 512 0 512 512, Fill 255, Rect 522 10 40 40, Fill 0, TextSize 32,
      TextLabel ''R'' 532 50,
      NoFill, Rect 0 512 512 512, Fill 255, Rect 10 522 40 40, Fill 0, TextSize 32,
      TextLabel ''P'' 20 562,
      NoFill, Rect 512 512 512 512, Fill 255, Rect 522 522 40 40, Fill 0, TextSize 32,
      TextLabel ''A'' 532 562,
      NoFill, Rect 0 1024 512 512, Fill 255, Rect 10 1034 40 40, Fill 0, TextSize 32,
      TextLabel ''B'' 20 1074] s"

definition resetLeftSide :: "sketch \<Rightarrow> sketch" where
  "resetLeftSide s =
     (let s1 = emit [NoStroke, Fill 255, Rect 0 0 512 512] s;
          s2 = drawBoard s1
      in s2\<lparr>drawing := []\<rparr>)"

text \<open>
  \<^verbatim>\<open>draw\<close> runs at every frame, with the pointer state of the host; \<^verbatim>\<open>mousePressed\<close> gets
  the reading of \<^verbatim>\<open>millis()\<close>; \<^verbatim>\<open>mouseReleased\<close> gets the two values its calls of
  \<^verbatim>\<open>random(1000)\<close> return, in the order of the calls.
\<close>

definition draw :: "bool \<Rightarrow> real \<Rightarrow> real \<Rightarrow> real \<Rightarrow> real \<Rightarrow> sketch \<Rightarrow> sketch" where
  "draw mouseIsPressed mouseX mouseY pmouseX pmouseY s =
     (if mouseIsPressed \<and> mouseX \<le> 512 \<and> mouseY \<le> 512
      then (emit [Stroke 0, StrokeWeight 10, Line pmouseX pmouseY mouseX mouseY] s)
             \<lparr>drawing := drawing s @ [\<lparr>ptx = mouseX, pty = mouseY\<rparr>]\<rparr>
      else s)"

definition mouseReleased ::
  "(real \<Rightarrow> real \<Rightarrow> real) \<Rightarrow> real \<Rightarrow> real \<Rightarrow> sketch \<Rightarrow> sketch option" where
  "mouseReleased noise rR rA s =
     Option.bind (dotGridR noise rR s) (\<lambda>s1.
       let s2 = f noise s1 in
       Option.bind (dotGridA noise rA s2) (\<lambda>s3.
         translateAToB noise s3))"

definition mousePressed :: "real \<Rightarrow> real \<Rightarrow> real \<Rightarrow> sketch \<Rightarrow> sketch" where
  "mousePressed millis mouseX mouseY s =
     (let currentTime = millis;
          s1 = (if currentTime - lastClickTime s < doubleClickThreshold s
                   \<and> mouseX \<le> 512 \<and> mouseY \<le> 512
                then resetLeftSide s else s)
      in s1\<lparr>lastClickTime := currentTime\<rparr>)"

text \<open>The calls an operation adds to the log of the state it starts from.\<close>

definition emitted :: "'a sketch_scheme \<Rightarrow> 'b sketch_scheme \<Rightarrow> call list" where
  "emitted s s' = drop (length (calls s)) (calls s')"

section \<open>Devices of the proofs\<close>

text \<open>
  The values a counting loop \<^verbatim>\<open>for (v = v0; v < bound; v += step)\<close> with a positive step
  runs through, and the cells of a grid loop, in the order the loop visits them.
\<close>

function loopVals :: "real \<Rightarrow> real \<Rightarrow> real \<Rightarrow> real list" where
  "loopVals v bound step =
     (if 0 < step \<and> v < bound then v # loopVals (v + step) bound step else [])"
  by pat_completeness auto
termination
proof (relation "measure (\<lambda>(v, bound, step). nat \<lceil>(bound - v) / step\<rceil>)", goal_cases)
  case 1
  show ?case by simp
next
  case (2 v bound step)
  then have "(bound - (v + step)) / step = (bound - v) / step - 1"
    by (simp add: field_simps)
  moreover from 2 have "0 < \<lceil>(bound - v) / step\<rceil>"
    by simp
  ultimately show ?case
    by simp
qed

declare loopVals.simps [simp del]

declare f_loop.simps [simp del]

definition gridCells :: "real \<Rightarrow> real \<Rightarrow> real \<Rightarrow> real \<Rightarrow> real \<Rightarrow> (real \<times> real) list" where
  "gridCells x0 x1 y0 y1 g =
     concat (map (\<lambda>x. map (Pair x) (loopVals (y0 + g / 2) y1 g)) (loopVals (x0 + g / 2) x1 g))"

text \<open>The calls of one kind in a log, with their arguments.\<close>

fun noise_calls :: "call list \<Rightarrow> (real \<times> real) list" where
  "noise_calls [] = []"
| "noise_calls (Noise a b # cs) = (a, b) # noise_calls cs"
| "noise_calls (c # cs) = noise_calls cs"

fun circles :: "call list \<Rightarrow> (real \<times> real \<times> real) list" where
  "circles [] = []"
| "circles (Circle x y d # cs) = (x, y, d) # circles cs"
| "circles (c # cs) = circles cs"

fun lines :: "call list \<Rightarrow> (real \<times> real \<times> real \<times> real) list" where
  "lines [] = []"
| "lines (Line a b c d # cs) = (a, b, c, d) # lines cs"
| "lines (c # cs) = lines cs"

fun randoms :: "call list \<Rightarrow> real list" where
  "randoms [] = []"
| "randoms (Random m # cs) = m # randoms cs"
| "randoms (c # cs) = randoms cs"

text \<open>The centres of the dots drawn in a log.\<close>

definition circle_centres :: "call list \<Rightarrow> (real \<times> real) list" where
  "circle_centres cs = map (\<lambda>(x, y, d). (x, y)) (circles cs)"

text \<open>
  The arguments of the noise sample of a point, the point displaced by its sample, and the
  calls the loops make, as functions of the values the loops read.
\<close>

definition sample_args :: "real \<Rightarrow> real \<Rightarrow> real \<Rightarrow> real \<times> real \<Rightarrow> real \<times> real" where
  "sample_args off sx sy = (\<lambda>(x, y). ((x + off) * sx, (y + off) * sy))"

definition sample :: "(real \<Rightarrow> real \<Rightarrow> real) \<Rightarrow> real \<Rightarrow> real \<Rightarrow> real \<Rightarrow> real \<times> real \<Rightarrow> real" where
  "sample noise off sx sy c = (case sample_args off sx sy c of (a, b) \<Rightarrow> noise a b)"

definition displaced :: "(real \<Rightarrow> real \<Rightarrow> real) \<Rightarrow> real \<Rightarrow> real \<Rightarrow> real \<Rightarrow> real \<times> real \<Rightarrow> point" where
  "displaced noise off sx sy = (\<lambda>(x, y).
     \<lparr>ptx = x + map_range (sample noise off sx sy (x, y)) 0 1 (-10) 10,
      pty = y + map_range (sample noise off sx sy (x, y)) 0 1 (-10) 10\<rparr>)"

definition coords :: "point \<Rightarrow> real \<times> real" where
  "coords p = (ptx p, pty p)"

definition dot_calls ::
  "(real \<Rightarrow> real \<Rightarrow> real) \<Rightarrow> real \<Rightarrow> real \<Rightarrow> real \<Rightarrow> real \<Rightarrow> (real \<times> real) list \<Rightarrow> call list" where
  "dot_calls noise off sx sy g cells =
     concat (map (\<lambda>(x, y). [Noise ((x + off) * sx) ((y + off) * sy),
                            Circle x y (noise ((x + off) * sx) ((y + off) * sy) * g)]) cells)"

fun f_calls ::
  "(real \<Rightarrow> real \<Rightarrow> real) \<Rightarrow> real \<Rightarrow> real \<Rightarrow> real \<Rightarrow> nat \<Rightarrow> real option \<Rightarrow> real option
    \<Rightarrow> (real \<times> real) list \<Rightarrow> call list" where
  "f_calls noise off sx sy i px py [] = []"
| "f_calls noise off sx sy i px py (c # cs) =
     (let q = displaced noise off sx sy c in
      Noise (fst (sample_args off sx sy c)) (snd (sample_args off sx sy c))
      # (if i > 0
         then [Stroke 0, StrokeWeight 10,
               line_call px (map_option (\<lambda>v. v + 512) py) (ptx q) (pty q + 512)]
         else [])
      @ f_calls noise off sx sy (Suc i) (Some (ptx q)) (Some (pty q)) cs)"

fun translate_calls ::
  "(real \<Rightarrow> real \<Rightarrow> real) \<Rightarrow> real \<Rightarrow> real \<Rightarrow> real \<Rightarrow> real option \<Rightarrow> real option
    \<Rightarrow> (real \<times> real) list \<Rightarrow> call list" where
  "translate_calls noise off sx sy px py [] = []"
| "translate_calls noise off sx sy px py (c # cs) =
     (let q = displaced noise off sx sy c in
      Noise (fst (sample_args off sx sy c)) (snd (sample_args off sx sy c))
      # (if truthy px \<and> truthy py
         then [Stroke 0, StrokeWeight 10,
               line_call (map_option (\<lambda>v. v - 512) px) (map_option (\<lambda>v. v + 512) py)
                 (ptx q - 512) (pty q + 512)]
         else [])
      @ translate_calls noise off sx sy (Some (ptx q)) (Some (pty q)) cs)"

text \<open>
  The reading of ``the reseeds are followed by the renders and the transforms'' as one order
  on the whole log: no call of \<^verbatim>\<open>random\<close> comes after the first call that samples the
  noise or draws a dot or a segment.
\<close>

fun is_sampling :: "call \<Rightarrow> bool" where
  "is_sampling (Noise a b) = True"
| "is_sampling (Circle x y d) = True"
| "is_sampling (Line a b c d) = True"
| "is_sampling c = False"

definition reseeds_first :: "call list \<Rightarrow> bool" where
  "reseeds_first cs = (randoms (dropWhile (\<lambda>c. \<not> is_sampling c) cs) = [])"

definition released_calls ::
  "(real \<Rightarrow> real \<Rightarrow> real) \<Rightarrow> real \<Rightarrow> real \<Rightarrow> sketch \<Rightarrow> call list option" where
  "released_calls noise rR rA s = map_option (emitted s) (mouseReleased noise rR rA s)"

text \<open>A noise function for the examples: the constant one half.\<close>

definition flat_noise :: "real \<Rightarrow> real \<Rightarrow> real" where
  "flat_noise a b = 1 / 2"

text \<open>A state for the examples: the initial one, with a stroke of two points.\<close>

definition example_stroke :: sketch where
  "example_stroke = initial\<lparr>drawing := [\<lparr>ptx = 100, pty = 100\<rparr>, \<lparr>ptx = 110, pty = 100\<rparr>]\<rparr>"

section \<open>Loops with a positive step, and loops that never end\<close>

lemma forLoop_fold:
  assumes step: "0 < step" and I: "I s"
    and c: "\<And>v s. I s \<Longrightarrow> cond v s = (v < bound)"
    and n: "\<And>v s. I s \<Longrightarrow> next v s = v + step"
    and b: "\<And>v s. I s \<Longrightarrow> body v s = Some (b v s)"
    and p: "\<And>v s. I s \<Longrightarrow> I (b v s)"
  shows "forLoop cond next body v s = Some (fold b (loopVals v bound step) s)"
  using I
proof (induction "loopVals v bound step" arbitrary: v s)
  case Nil
  then have "\<not> v < bound"
    using step by (simp add: loopVals.simps [of v] split: if_splits)
  with Nil show ?case
    by (simp add: forLoop.simps [of cond "next" body v s] c)
next
  case (Cons x xs)
  from Cons(2) have v: "v < bound" and xs: "xs = loopVals (v + step) bound step"
    by (simp_all add: loopVals.simps [of v] split: if_splits)
  have Ib: "I (b v s)"
    using Cons(3) by (rule p)
  have "forLoop cond next body v s = forLoop cond next body (v + step) (b v s)"
    using v by (simp add: forLoop.simps [of cond "next" body v s] c [OF Cons(3)] b [OF Cons(3)] n [OF Ib])
  also have "\<dots> = Some (fold b xs (b v s))"
    using Cons(1) [OF xs Ib] xs by simp 
  finally show ?case
    using v step by (simp add: loopVals.simps [of v] xs)
qed

lemma forLoop_diverges:
  fixes s :: "'s"
  assumes step: "step \<le> 0"
    and c: "\<And>v s. I s \<Longrightarrow> cond v s = (v < bound)"
    and n: "\<And>v s. I s \<Longrightarrow> next v s = v + step"
    and p: "\<And>v s s'. I s \<Longrightarrow> body v s = Some s' \<Longrightarrow> I s'"
    and I: "I s" and v: "v < bound"
  shows "forLoop cond next body v s = None"
proof -
  define P where "P = (\<lambda>c' n' b' v (s :: 's) (r :: 's).
    c' = cond \<longrightarrow> n' = next \<longrightarrow> b' = body \<longrightarrow> I s \<longrightarrow> v < bound \<longrightarrow> False)"
  have "P cond next body v s r" if "forLoop cond next body v s = Some r" for r
  proof (rule forLoop.raw_induct [where P = P, OF _ that])
    fix loop c' n' b' v s r
    assume IH: "\<And>c n b v s r. loop c n b v s = Some r \<Longrightarrow> P c n b v s r"
      and eq: "(if c' v s then Option.bind (b' v s) (\<lambda>s'. loop c' n' b' (n' v s') s')
                else Some s) = Some r"
    show "P c' n' b' v s r"
      unfolding P_def
    proof (intro impI)
      assume eqs: "c' = cond" "n' = next" "b' = body" and Is: "I s" and v: "v < bound"
      from eq obtain s' where
        s': "body v s = Some s'" and r: "loop cond next body (next v s') s' = Some r"
        using v by (auto simp: eqs c [OF Is] split: bind_splits)
      have Is': "I s'"
        using Is s' by (rule p)
      have "next v s' < bound"
        using n [OF Is'] v step by simp
      with IH [OF r] Is' show False
        by (simp add: P_def)
    qed
  qed
  with I v show ?thesis
    by (cases "forLoop cond next body v s") (auto simp: P_def)
qed

lemma forLoop_body_None:
  "cond v s \<Longrightarrow> body v s = None \<Longrightarrow> forLoop cond next body v s = None"
  by (subst forLoop.simps) simp

lemma fold_gap:
  assumes "\<And>y s. gap (body y s) = gap s"
  shows "gap (fold body ys s) = gap s"
  using assms by (induction ys arbitrary: s) simp_all

lemma fold_cells:
  "fold (\<lambda>x. fold (body x) ys) xs s =
   fold (\<lambda>(x, y). body x y) (concat (map (\<lambda>x. map (Pair x) ys) xs)) s"
proof (induction xs arbitrary: s)
  case Nil
  show ?case by simp
next
  case (Cons x xs)
  have "fold (\<lambda>(x, y). body x y) (map (Pair x) ys) t = fold (body x) ys t" for t
    by (induction ys arbitrary: t) simp_all
  with Cons show ?case
    by simp
qed

lemma gridLoop_fold:
  fixes s :: "'a sketch_scheme"
  assumes g: "0 < gap s" and pres: "\<And>x y (t :: 'a sketch_scheme). gap (body x y t) = gap t"
  shows "gridLoop x0 x1 y0 y1 body s =
         Some (fold (\<lambda>(x, y). body x y) (gridCells x0 x1 y0 y1 (gap s)) s)"
proof -
  define I where "I = (\<lambda>t :: 'a sketch_scheme. gap t = gap s)"
  define ys where "ys = loopVals (y0 + gap s / 2) y1 (gap s)"
  have inner: "forLoop (\<lambda>y s. y < y1) (\<lambda>y s. y + gap s) (\<lambda>y s. Some (body x y s))
                 (y0 + gap s / 2) t = Some (fold (body x) ys t)" if "gap t = gap s" for x t
    unfolding ys_def
    using g that by (intro forLoop_fold [where I = I]) (simp_all add: I_def pres)
  have "gridLoop x0 x1 y0 y1 body s =
        Some (fold (\<lambda>x. fold (body x) ys) (loopVals (x0 + gap s / 2) x1 (gap s)) s)"
    unfolding gridLoop_def
    using g by (intro forLoop_fold [where I = I])
      (simp_all add: I_def inner fold_gap pres)
  then show ?thesis
    by (simp add: fold_cells gridCells_def ys_def)
qed

lemma gridLoop_diverges:
  fixes s :: "'a sketch_scheme"
  assumes g: "gap s \<le> 0" and x: "x0 + gap s / 2 < x1" and y: "y0 + gap s / 2 < y1"
    and pres: "\<And>x y (t :: 'a sketch_scheme). gap (body x y t) = gap t"
  shows "gridLoop x0 x1 y0 y1 body s = None"
proof -
  have "forLoop (\<lambda>y t. y < y1) (\<lambda>y t. y + gap t) (\<lambda>y t. Some (body (x0 + gap s / 2) y t))
          (y0 + gap s / 2) s = None"
    using g y by (intro forLoop_diverges [where I = "\<lambda>t. gap t = gap s" and step = "gap s"])
      (auto simp: pres)
  with x show ?thesis
    unfolding gridLoop_def by (intro forLoop_body_None [where cond = "\<lambda>x s. x < x1"])
qed


section \<open>Globals and locals\<close>

lemma enter_fields [simp]:
  "xScale (enter s) = xScale s" "yScale (enter s) = yScale s" "gap (enter s) = gap s"
  "offsetR (enter s) = offsetR s" "offsetA (enter s) = offsetA s" "drawing (enter s) = drawing s"
  "calls (enter s) = calls s" "prevX (enter s) = None" "prevY (enter s) = None"
  "points (enter s) = []"
  by (simp_all add: enter_def sketch.extend_def)

lemma leave_enter [simp]: "leave (enter s) = s"
  by (simp add: enter_def leave_def sketch.defs)

lemma leave_update [simp]:
  "leave (fr\<lparr>calls := c\<rparr>) = (leave fr)\<lparr>calls := c\<rparr>"
  "leave (fr\<lparr>prevX := px\<rparr>) = leave fr"
  "leave (fr\<lparr>prevY := py\<rparr>) = leave fr"
  "leave (fr\<lparr>points := ps\<rparr>) = leave fr"
  by (simp_all add: leave_def sketch.defs)

lemma leave_fields [simp]:
  "xScale (leave s) = xScale s" "yScale (leave s) = yScale s" "gap (leave s) = gap s"
  "offsetR (leave s) = offsetR s" "offsetA (leave s) = offsetA s" "drawing (leave s) = drawing s"
  "calls (leave s) = calls s" 
  by (simp_all add: leave_def sketch.defs)

lemma emit_fields [simp]:
  "xScale (emit cs s) = xScale s" "yScale (emit cs s) = yScale s" "gap (emit cs s) = gap s"
  "offsetR (emit cs s) = offsetR s" "offsetA (emit cs s) = offsetA s"
  "drawing (emit cs s) = drawing s" "calls (emit cs s) = calls s @ cs"
  by (simp_all add: emit_def)

lemma emit_frame_fields [simp]:
  "prevX (emit cs fr) = prevX fr" "prevY (emit cs fr) = prevY fr" "points (emit cs fr) = points fr"
  by (simp_all add: emit_def)

lemma leave_emit [simp]: "leave (emit cs fr) = emit cs (leave fr)"
  by (simp add: emit_def)

lemma emit_emit [simp]: "emit cs (emit ds s) = emit (ds @ cs) s"
  by (simp add: emit_def)

section \<open>The calls of the operations\<close>

lemma noise_calls_append [simp]: "noise_calls (xs @ ys) = noise_calls xs @ noise_calls ys"
  by (induction xs rule: noise_calls.induct) simp_all

lemma circles_append [simp]: "circles (xs @ ys) = circles xs @ circles ys"
  by (induction xs rule: circles.induct) simp_all

lemma lines_append [simp]: "lines (xs @ ys) = lines xs @ lines ys"
  by (induction xs rule: lines.induct) simp_all

lemma randoms_append [simp]: "randoms (xs @ ys) = randoms xs @ randoms ys"
  by (induction xs rule: randoms.induct) simp_all

lemma emitted_emit [simp]: "emitted s (emit cs s) = cs"
  by (simp add: emitted_def)

lemma emitted_calls [simp]: "emitted s (t\<lparr>calls := calls s @ cs\<rparr>) = cs"
  by (simp add: emitted_def)

lemma dot_calls_Nil [simp]: "dot_calls noise off sx sy g [] = []"
  by (simp add: dot_calls_def)

lemma dot_calls_Cons [simp]:
  "dot_calls noise off sx sy g ((x, y) # cells) =
   Noise ((x + off) * sx) ((y + off) * sy)
   # Circle x y (noise ((x + off) * sx) ((y + off) * sy) * g)
   # dot_calls noise off sx sy g cells"
  by (simp add: dot_calls_def)

lemma fold_dotGridR_cell:
  "fold (\<lambda>(x, y). dotGridR_cell noise x y) cells s =
   emit (dot_calls noise (offsetR s) (xScale s) (yScale s) (gap s) cells) s"
proof (induction cells arbitrary: s)
  case Nil
  show ?case by (simp add: emit_def)
next
  case (Cons c cells)
  obtain x y where c: "c = (x, y)"
    by (cases c)
  define t where "t = dotGridR_cell noise x y s"
  have t: "t = emit [Noise ((x + offsetR s) * xScale s) ((y + offsetR s) * yScale s),
                     Circle x y (noise ((x + offsetR s) * xScale s) ((y + offsetR s) * yScale s)
                                 * gap s)] s"
    by (simp add: t_def dotGridR_cell_def Let_def)
  have "fold (\<lambda>(x, y). dotGridR_cell noise x y) (c # cells) s =
        fold (\<lambda>(x, y). dotGridR_cell noise x y) cells t"
    by (simp add: c t_def)
  also have "\<dots> = emit (dot_calls noise (offsetR t) (xScale t) (yScale t) (gap t) cells) t"
    by (rule Cons)
  also have "\<dots> = emit (dot_calls noise (offsetR s) (xScale s) (yScale s) (gap s) (c # cells)) s"
    by (simp add: t c)
  finally show ?case .
qed

lemma fold_dotGridA_cell:
  "fold (\<lambda>(x, y). dotGridA_cell noise x y) cells s =
   emit (dot_calls noise (offsetA s) (xScale s) (yScale s) (gap s) cells) s"
proof (induction cells arbitrary: s)
  case Nil
  show ?case by (simp add: emit_def)
next
  case (Cons c cells)
  obtain x y where c: "c = (x, y)"
    by (cases c)
  define t where "t = dotGridA_cell noise x y s"
  have t: "t = emit [Noise ((x + offsetA s) * xScale s) ((y + offsetA s) * yScale s),
                     Circle x y (noise ((x + offsetA s) * xScale s) ((y + offsetA s) * yScale s)
                                 * gap s)] s"
    by (simp add: t_def dotGridA_cell_def Let_def)
  have "fold (\<lambda>(x, y). dotGridA_cell noise x y) (c # cells) s =
        fold (\<lambda>(x, y). dotGridA_cell noise x y) cells t"
    by (simp add: c t_def)
  also have "\<dots> = emit (dot_calls noise (offsetA t) (xScale t) (yScale t) (gap t) cells) t"
    by (rule Cons)
  also have "\<dots> = emit (dot_calls noise (offsetA s) (xScale s) (yScale s) (gap s) (c # cells)) s"
    by (simp add: t c)
  finally show ?case .
qed

lemma height_third [simp]: "height / 3 = 512"
  by (simp add: height_def)

lemma dotGridR_eq:
  assumes "0 < gap s"
  shows "dotGridR noise r s =
         Some (s\<lparr>offsetR := r,
                 calls := calls s
                   @ [NoStroke, Fill 0, Fill 255, Rect 512 0 512 512, Fill 0, Random 1000]
                   @ dot_calls noise r (xScale s) (yScale s) (gap s)
                       (gridCells 512 1024 0 512 (gap s))\<rparr>)"
  unfolding dotGridR_def Let_def
  using assms
  by (subst gridLoop_fold) (simp_all add: dotGridR_cell_def Let_def fold_dotGridR_cell emit_def)

lemma dotGridA_eq:
  assumes "0 < gap s"
  shows "dotGridA noise r s =
         Some (s\<lparr>offsetA := r,
                 calls := calls s
                   @ [NoStroke, Fill 0, Fill 255, Rect 512 512 512 512, Fill 0, Random 1000]
                   @ dot_calls noise r (xScale s) (yScale s) (gap s)
                       (gridCells 512 1024 512 1024 (gap s))\<rparr>)"
  unfolding dotGridA_def Let_def
  using assms
  by (subst gridLoop_fold) (simp_all add: dotGridA_cell_def Let_def fold_dotGridA_cell emit_def)

lemma sample_args_simp [simp]:
  "sample_args off sx sy (x, y) = ((x + off) * sx, (y + off) * sy)"
  by (simp add: sample_args_def)

lemma f_body_eq:
  "f_body noise i s =
   (let c = coords (drawing s ! i); q = displaced noise (offsetR s) (xScale s) (yScale s) c in
    (emit (f_calls noise (offsetR s) (xScale s) (yScale s) i (prevX s) (prevY s) [c]) s)
      \<lparr>prevX := Some (ptx q), prevY := Some (pty q), points := points s @ [q]\<rparr>)"
  by (simp add: f_body_def Let_def coords_def displaced_def sample_def emit_def)

lemma f_body_fields [simp]:
  "xScale (f_body noise i s) = xScale s" "yScale (f_body noise i s) = yScale s"
  "gap (f_body noise i s) = gap s" "offsetR (f_body noise i s) = offsetR s"
  "offsetA (f_body noise i s) = offsetA s" "drawing (f_body noise i s) = drawing s"
  by (simp_all add: f_body_def Let_def)

lemma f_loop_eq:
  "leave (f_loop noise i s) =
     emit (f_calls noise (offsetR s) (xScale s) (yScale s) i (prevX s) (prevY s)
             (map coords (drop i (drawing s)))) (leave s)
   \<and> points (f_loop noise i s) =
     points s @ map (displaced noise (offsetR s) (xScale s) (yScale s))
                  (map coords (drop i (drawing s)))"
proof (induction noise i s rule: f_loop.induct)
  case (1 noise i s)
  show ?case
  proof (cases "i < length (drawing s)")
    case True
    define t where "t = f_body noise i s"
    define c where "c = coords (drawing s ! i)"
    define q where "q = displaced noise (offsetR s) (xScale s) (yScale s) c"
    have t: "t = (emit (f_calls noise (offsetR s) (xScale s) (yScale s) i (prevX s) (prevY s) [c]) s)
                   \<lparr>prevX := Some (ptx q), prevY := Some (pty q), points := points s @ [q]\<rparr>"
      by (simp add: t_def f_body_eq Let_def c_def q_def)
    have d: "map coords (drop i (drawing s)) = c # map coords (drop (Suc i) (drawing s))"
      using True by (simp add: c_def Cons_nth_drop_Suc [symmetric])
    have loop: "f_loop noise i s = f_loop noise (i + 1) t"
      using True by (simp add: f_loop.simps [of noise i s] t_def)
    have fields: "offsetR t = offsetR s" "xScale t = xScale s" "yScale t = yScale s"
      "drawing t = drawing s"
      by (simp_all add: t_def)
    note IH = "1.IH" [OF True, folded t_def, unfolded fields]
    have pt: "prevX t = Some (ptx q)" "prevY t = Some (pty q)" "points t = points s @ [q]"
      "leave t = emit (f_calls noise (offsetR s) (xScale s) (yScale s) i (prevX s) (prevY s) [c])
                   (leave s)"
      by (simp_all add: t emit_def)
    have split: "f_calls noise (offsetR s) (xScale s) (yScale s) i (prevX s) (prevY s)
                   (c # map coords (drop (Suc i) (drawing s))) =
                 f_calls noise (offsetR s) (xScale s) (yScale s) i (prevX s) (prevY s) [c]
                 @ f_calls noise (offsetR s) (xScale s) (yScale s) (Suc i) (Some (ptx q))
                     (Some (pty q)) (map coords (drop (Suc i) (drawing s)))"
      by (simp add: Let_def q_def)
    have "leave (f_loop noise i s) =
          emit (f_calls noise (offsetR s) (xScale s) (yScale s) (Suc i) (prevX t) (prevY t)
                  (map coords (drop (Suc i) (drawing s)))) (leave t)"
      using IH by (simp add: loop)
    also have "\<dots> = emit (f_calls noise (offsetR s) (xScale s) (yScale s) i (prevX s) (prevY s)
                           (map coords (drop i (drawing s)))) (leave s)"
      unfolding d split pt by simp
    finally have calls: "leave (f_loop noise i s) =
          emit (f_calls noise (offsetR s) (xScale s) (yScale s) i (prevX s) (prevY s)
                  (map coords (drop i (drawing s)))) (leave s)" .
    have "points (f_loop noise i s) =
          points t @ map (displaced noise (offsetR s) (xScale s) (yScale s))
                       (map coords (drop (Suc i) (drawing s)))"
      using IH by (simp add: loop)
    also have "\<dots> = points s @ map (displaced noise (offsetR s) (xScale s) (yScale s))
                                  (map coords (drop i (drawing s)))"
      unfolding d pt by (simp add: q_def)
    finally show ?thesis
      using calls by simp
  next
    case False
    then show ?thesis
      by (simp add: f_loop.simps [of noise i s] emit_def)
  qed
qed

lemma f_eq:
  "f noise s =
   emit ([Fill 255, Rect 0 512 512 512, Fill 0]
         @ f_calls noise (offsetR s) (xScale s) (yScale s) 0 None None (map coords (drawing s))) s"
  using f_loop_eq [of noise 0 "enter (emit [Fill 255, Rect 0 512 512 512, Fill 0] s)"]
  by (simp add: f_def f_run_def)

lemma f_points_eq:
  "f_points noise s =
   map (displaced noise (offsetR s) (xScale s) (yScale s)) (map coords (drawing s))"
  using f_loop_eq [of noise 0 "enter (emit [Fill 255, Rect 0 512 512 512, Fill 0] s)"]
  by (simp add: f_points_def f_run_def)

lemma translateAToB_cell_eq:
  "translateAToB_cell noise x y s =
   (let q = displaced noise (offsetA s) (xScale s) (yScale s) (x, y) in
    (emit (translate_calls noise (offsetA s) (xScale s) (yScale s) (prevX s) (prevY s) [(x, y)]) s)
      \<lparr>prevX := Some (ptx q), prevY := Some (pty q), points := points s @ [q]\<rparr>)"
  by (simp add: translateAToB_cell_def Let_def displaced_def sample_def emit_def)

lemma translateAToB_cell_fields [simp]:
  "xScale (translateAToB_cell noise x y s) = xScale s"
  "yScale (translateAToB_cell noise x y s) = yScale s"
  "gap (translateAToB_cell noise x y s) = gap s"
  "offsetR (translateAToB_cell noise x y s) = offsetR s"
  "offsetA (translateAToB_cell noise x y s) = offsetA s"
  "drawing (translateAToB_cell noise x y s) = drawing s"
  by (simp_all add: translateAToB_cell_def Let_def)

lemma fold_translateAToB_cell:
  "leave (fold (\<lambda>(x, y). translateAToB_cell noise x y) cells s) =
     emit (translate_calls noise (offsetA s) (xScale s) (yScale s) (prevX s) (prevY s) cells)
       (leave s)
   \<and> points (fold (\<lambda>(x, y). translateAToB_cell noise x y) cells s) =
     points s @ map (displaced noise (offsetA s) (xScale s) (yScale s)) cells"
proof (induction cells arbitrary: s)
  case Nil
  show ?case by (simp add: emit_def)
next
  case (Cons c cells)
  obtain x y where c: "c = (x, y)"
    by (cases c)
  define t where "t = translateAToB_cell noise x y s"
  define q where "q = displaced noise (offsetA s) (xScale s) (yScale s) c"
  have t: "t = (emit (translate_calls noise (offsetA s) (xScale s) (yScale s) (prevX s) (prevY s)
                        [c]) s)
                 \<lparr>prevX := Some (ptx q), prevY := Some (pty q), points := points s @ [q]\<rparr>"
    by (simp add: t_def translateAToB_cell_eq Let_def c q_def)
  have fields: "offsetA t = offsetA s" "xScale t = xScale s" "yScale t = yScale s"
    by (simp_all add: t_def)
  have pt: "prevX t = Some (ptx q)" "prevY t = Some (pty q)" "points t = points s @ [q]"
    "leave t = emit (translate_calls noise (offsetA s) (xScale s) (yScale s) (prevX s) (prevY s)
                       [c]) (leave s)"
    by (simp_all add: t emit_def)
  have fold: "fold (\<lambda>(x, y). translateAToB_cell noise x y) (c # cells) s =
              fold (\<lambda>(x, y). translateAToB_cell noise x y) cells t"
    by (simp add: c t_def)
  note IH = Cons [of t, unfolded fields pt]
  have split: "translate_calls noise (offsetA s) (xScale s) (yScale s) (prevX s) (prevY s)
                 (c # cells) =
               translate_calls noise (offsetA s) (xScale s) (yScale s) (prevX s) (prevY s) [c]
               @ translate_calls noise (offsetA s) (xScale s) (yScale s) (Some (ptx q))
                   (Some (pty q)) cells"
    by (simp add: Let_def q_def)
  show ?case
    unfolding fold split using IH by (simp add: q_def)
qed

lemma translateAToB_run_eq:
  assumes "0 < gap s"
  shows "translateAToB_run noise s =
         Some (fold (\<lambda>(x, y). translateAToB_cell noise x y) (gridCells 512 1024 512 1024 (gap s))
                 (enter (emit [Fill 255, Rect 0 1024 512 512] s)))"
  unfolding translateAToB_run_def
  using assms by (subst gridLoop_fold) simp_all

lemma translateAToB_eq:
  assumes "0 < gap s"
  shows "translateAToB noise s =
         Some (emit ([Fill 255, Rect 0 1024 512 512]
                     @ translate_calls noise (offsetA s) (xScale s) (yScale s) None None
                         (gridCells 512 1024 512 1024 (gap s))) s)"
  using assms
  by (simp add: translateAToB_def translateAToB_run_eq fold_translateAToB_cell)

lemma translateAToB_points_eq:
  assumes "0 < gap s"
  shows "translateAToB_points noise s =
         Some (map (displaced noise (offsetA s) (xScale s) (yScale s))
                 (gridCells 512 1024 512 1024 (gap s)))"
  using assms
  by (simp add: translateAToB_points_def translateAToB_run_eq fold_translateAToB_cell)

lemma line_call_others [simp]:
  "noise_calls (line_call a b c d # cs) = noise_calls cs"
  "randoms (line_call a b c d # cs) = randoms cs"
  "circles (line_call a b c d # cs) = circles cs"
  by (cases "(a, b, c, d)" rule: line_call.cases; simp)+

lemma noise_calls_f_calls [simp]:
  "noise_calls (f_calls noise off sx sy i px py cs) = map (sample_args off sx sy) cs"
  by (induction cs arbitrary: i px py) (auto simp: Let_def split: option.splits) 

lemma noise_calls_translate_calls [simp]:
  "noise_calls (translate_calls noise off sx sy px py cs) = map (sample_args off sx sy) cs"
  by (induction cs arbitrary: px py) (auto simp: Let_def)

lemma noise_calls_dot_calls [simp]:
  "noise_calls (dot_calls noise off sx sy g cs) = map (sample_args off sx sy) cs"
  by (induction cs) auto

lemma circles_dot_calls [simp]:
  "circles (dot_calls noise off sx sy g cs) =
   map (\<lambda>(x, y). (x, y, sample noise off sx sy (x, y) * g)) cs"
  by (induction cs) (auto simp: sample_def)

lemma randoms_dot_calls [simp]: "randoms (dot_calls noise off sx sy g cs) = []"
  by (induction cs) auto

lemma randoms_f_calls [simp]: "randoms (f_calls noise off sx sy i px py cs) = []"
  by (induction cs arbitrary: i px py) (auto simp: Let_def)

lemma randoms_translate_calls [simp]: "randoms (translate_calls noise off sx sy px py cs) = []"
  by (induction cs arbitrary: px py) (auto simp: Let_def)

lemma circles_f_calls [simp]: "circles (f_calls noise off sx sy i px py cs) = []"
  by (induction cs arbitrary: i px py) (auto simp: Let_def)

lemma circles_translate_calls [simp]: "circles (translate_calls noise off sx sy px py cs) = []"
  by (induction cs arbitrary: px py) (auto simp: Let_def)

lemma lines_dot_calls [simp]: "lines (dot_calls noise off sx sy g cs) = []"
  by (induction cs) auto

text \<open>The segments \<^verbatim>\<open>f\<close> draws join consecutive transformed points, moved down by 512.\<close>

lemma point_eta [simp]: "\<lparr>ptx = ptx p, pty = pty p\<rparr> = p"
  by (cases p) simp

lemma lines_f_calls_Suc:
  "lines (f_calls noise off sx sy (Suc i) (Some a) (Some b) cs) =
   map (\<lambda>(p, q). (ptx p, pty p + 512, ptx q, pty q + 512))
     (zip (\<lparr>ptx = a, pty = b\<rparr> # map (displaced noise off sx sy) cs)
          (map (displaced noise off sx sy) cs))"
  by (induction cs arbitrary: i a b) (simp_all add: Let_def)

lemma lines_f_calls_0:
  "lines (f_calls noise off sx sy 0 None None cs) =
   map (\<lambda>(p, q). (ptx p, pty p + 512, ptx q, pty q + 512))
     (zip (map (displaced noise off sx sy) cs) (tl (map (displaced noise off sx sy) cs)))"
  by (cases cs) (simp_all add: Let_def lines_f_calls_Suc)

lemma undefined_f_calls_Suc:
  "LineUndefined \<notin> set (f_calls noise off sx sy (Suc i) (Some a) (Some b) cs)"
  by (induction cs arbitrary: i a b) (simp_all add: Let_def)

lemma undefined_f_calls_0: "LineUndefined \<notin> set (f_calls noise off sx sy 0 None None cs)"
  by (cases cs) (simp_all add: Let_def undefined_f_calls_Suc)

lemma emitted_f [simp]:
  "emitted s (f noise s) =
   [Fill 255, Rect 0 512 512 512, Fill 0]
   @ f_calls noise (offsetR s) (xScale s) (yScale s) 0 None None (map coords (drawing s))"
  by (simp add: f_eq)

lemma f_fields [simp]:
  "xScale (f noise s) = xScale s" "yScale (f noise s) = yScale s" "gap (f noise s) = gap s"
  "offsetR (f noise s) = offsetR s" "offsetA (f noise s) = offsetA s"
  "drawing (f noise s) = drawing s"
  by (simp_all add: f_eq)

lemma drawBoard_fields [simp]:
  "xScale (drawBoard s) = xScale s" "yScale (drawBoard s) = yScale s" "gap (drawBoard s) = gap s"
  "offsetR (drawBoard s) = offsetR s" "offsetA (drawBoard s) = offsetA s"
  "drawing (drawBoard s) = drawing s"
  by (simp_all add: drawBoard_def)

lemma emitted_update [simp]:
  "emitted s (t\<lparr>offsetR := r, calls := calls s @ cs\<rparr>) = cs"
  "emitted s (t\<lparr>offsetA := r, calls := calls s @ cs\<rparr>) = cs"
  by (simp_all add: emitted_def)

lemma sample_args_comp:
  "sample_args off sx sy \<circ> coords = (\<lambda>p. ((ptx p + off) * sx, (pty p + off) * sy))"
  by (auto simp: coords_def)

lemma sample_args_lambda:
  "sample_args off sx sy = (\<lambda>(x, y). ((x + off) * sx, (y + off) * sy))"
  by (simp add: sample_args_def)

lemma loopVals_first: "0 < step \<Longrightarrow> v < bound \<Longrightarrow> loopVals v bound step \<noteq> []"
  by (simp add: loopVals.simps [of v])

lemma gridCells_first:
  assumes "0 < g" "x0 + g / 2 < x1" "y0 + g / 2 < y1"
  shows "\<exists>cs. gridCells x0 x1 y0 y1 g = (x0 + g / 2, y0 + g / 2) # cs"
  using assms by (simp add: gridCells_def loopVals.simps [of "x0 + g / 2"] loopVals.simps [of "y0 + g / 2"])

lemma dotGridR_diverges: "gap s \<le> 0 \<Longrightarrow> dotGridR noise r s = None"
  unfolding dotGridR_def Let_def
  by (rule gridLoop_diverges) (simp_all add: dotGridR_cell_def Let_def)

lemma dotGridA_diverges: "gap s \<le> 0 \<Longrightarrow> dotGridA noise r s = None"
  unfolding dotGridA_def Let_def
  by (rule gridLoop_diverges) (simp_all add: dotGridA_cell_def Let_def)

lemma translateAToB_diverges: "gap s \<le> 0 \<Longrightarrow> translateAToB noise s = None"
  unfolding translateAToB_def translateAToB_run_def
  by (subst gridLoop_diverges) simp_all

lemma map_range_unit: "map_range n 0 1 (-10) 10 = 20 * n - 10"
  by (simp add: map_range_def)

lemma displaced_bounds:
  assumes "noise_in_range noise"
  shows "- 10 \<le> ptx (displaced noise off sx sy c) - fst c"
    "ptx (displaced noise off sx sy c) - fst c \<le> 10"
    "- 10 \<le> pty (displaced noise off sx sy c) - snd c"
    "pty (displaced noise off sx sy c) - snd c \<le> 10"
proof -
  have "0 \<le> noise ((fst c + off) * sx) ((snd c + off) * sy)"
    "noise ((fst c + off) * sx) ((snd c + off) * sy) < 1"
    using assms by (simp_all add: noise_in_range_def)
  then show "- 10 \<le> ptx (displaced noise off sx sy c) - fst c"
    "ptx (displaced noise off sx sy c) - fst c \<le> 10"
    "- 10 \<le> pty (displaced noise off sx sy c) - snd c"
    "pty (displaced noise off sx sy c) - snd c \<le> 10"
    by (simp_all add: displaced_def sample_def sample_args_def map_range_unit split_beta)
qed

lemma displaced_bounds_pair:
  assumes "noise_in_range noise"
  shows "- 10 \<le> ptx (displaced noise off sx sy (x, y)) - x"
    "ptx (displaced noise off sx sy (x, y)) - x \<le> 10"
    "- 10 \<le> pty (displaced noise off sx sy (x, y)) - y"
    "pty (displaced noise off sx sy (x, y)) - y \<le> 10"
  using displaced_bounds [OF assms, of off sx sy "(x, y)"] by simp_all

lemma diameter_bounds:
  assumes "noise_in_range noise" "0 < g"
  shows "0 \<le> sample noise off sx sy c * g" "sample noise off sx sy c * g \<le> g"
proof -
  obtain a b where ab: "sample_args off sx sy c = (a, b)"
    by (cases "sample_args off sx sy c")
  have n: "0 \<le> noise a b" "noise a b < 1"
    using assms by (simp_all add: noise_in_range_def)
  then show "0 \<le> sample noise off sx sy c * g"
    using assms(2) ab by (simp add: sample_def)
  have "noise a b * g \<le> 1 * g"
    using n assms(2) by (intro mult_right_mono) simp_all
  then show "sample noise off sx sy c * g \<le> g"
    using ab by (simp add: sample_def)
qed

lemma randoms_dropWhile: "randoms cs = [] \<Longrightarrow> randoms (dropWhile P cs) = []"
  by (induction cs rule: randoms.induct) (auto split: if_splits)

lemma mouseReleased_eq:
  assumes "0 < gap s"
  shows "mouseReleased noise rR rA s =
    Some (s\<lparr>offsetR := rR, offsetA := rA,
            calls := calls s
              @ ([NoStroke, Fill 0, Fill 255, Rect 512 0 512 512, Fill 0, Random 1000]
                 @ dot_calls noise rR (xScale s) (yScale s) (gap s)
                     (gridCells 512 1024 0 512 (gap s)))
              @ ([Fill 255, Rect 0 512 512 512, Fill 0]
                 @ f_calls noise rR (xScale s) (yScale s) 0 None None (map coords (drawing s)))
              @ ([NoStroke, Fill 0, Fill 255, Rect 512 512 512 512, Fill 0, Random 1000]
                 @ dot_calls noise rA (xScale s) (yScale s) (gap s)
                     (gridCells 512 1024 512 1024 (gap s)))
              @ ([Fill 255, Rect 0 1024 512 512]
                 @ translate_calls noise rA (xScale s) (yScale s) None None
                     (gridCells 512 1024 512 1024 (gap s)))\<rparr>)"
  using assms
  by (simp add: mouseReleased_def dotGridR_eq dotGridA_eq translateAToB_eq f_eq emit_def)

lemma reseeds_first_grid:
  "reseeds_first ([NoStroke, Fill 0, Fill 255, Rect a b c d, Fill 0, Random m]
                  @ dot_calls noise off sx sy g cells)"
  by (simp add: reseeds_first_def randoms_dropWhile)

lemma mouseReleased_steps:
  assumes "0 < gap s"
  shows
  "\<exists>s1 s3 s4.
     dotGridR noise rR s = Some s1
     \<and> dotGridA noise rA (f noise s1) = Some s3
     \<and> translateAToB noise s3 = Some s4
     \<and> mouseReleased noise rR rA s = Some s4
     \<and> emitted s s4 =
         emitted s s1 @ emitted s1 (f noise s1) @ emitted (f noise s1) s3 @ emitted s3 s4
     \<and> emitted s s1 =
         [NoStroke, Fill 0, Fill 255, Rect 512 0 512 512, Fill 0, Random 1000]
         @ dot_calls noise rR (xScale s) (yScale s) (gap s) (gridCells 512 1024 0 512 (gap s))
     \<and> emitted s1 (f noise s1) =
         [Fill 255, Rect 0 512 512 512, Fill 0]
         @ f_calls noise rR (xScale s) (yScale s) 0 None None (map coords (drawing s))
     \<and> emitted (f noise s1) s3 =
         [NoStroke, Fill 0, Fill 255, Rect 512 512 512 512, Fill 0, Random 1000]
         @ dot_calls noise rA (xScale s) (yScale s) (gap s) (gridCells 512 1024 512 1024 (gap s))
     \<and> emitted s3 s4 =
         [Fill 255, Rect 0 1024 512 512]
         @ translate_calls noise rA (xScale s) (yScale s) None None
             (gridCells 512 1024 512 1024 (gap s))
     \<and> f_points noise s1 =
         map (displaced noise rR (xScale s) (yScale s)) (map coords (drawing s))
     \<and> translateAToB_points noise s3 =
         Some (map (displaced noise rA (xScale s) (yScale s)) (gridCells 512 1024 512 1024 (gap s)))
     \<and> offsetR s1 = rR \<and> offsetA s3 = rA
     \<and> offsetR s4 = rR \<and> offsetA s4 = rA \<and> drawing s4 = drawing s"
proof -
  define s1 where "s1 = s\<lparr>offsetR := rR,
    calls := calls s @ [NoStroke, Fill 0, Fill 255, Rect 512 0 512 512, Fill 0, Random 1000]
               @ dot_calls noise rR (xScale s) (yScale s) (gap s)
                   (gridCells 512 1024 0 512 (gap s))\<rparr>"
  define s2 where "s2 = f noise s1"
  define s3 where "s3 = s2\<lparr>offsetA := rA,
    calls := calls s2 @ [NoStroke, Fill 0, Fill 255, Rect 512 512 512 512, Fill 0, Random 1000]
               @ dot_calls noise rA (xScale s) (yScale s) (gap s)
                   (gridCells 512 1024 512 1024 (gap s))\<rparr>"
  define s4 where "s4 = emit ([Fill 255, Rect 0 1024 512 512]
    @ translate_calls noise rA (xScale s) (yScale s) None None
        (gridCells 512 1024 512 1024 (gap s))) s3"
  have f1: "xScale s1 = xScale s" "yScale s1 = yScale s" "gap s1 = gap s" "offsetR s1 = rR"
    "drawing s1 = drawing s" "offsetA s1 = offsetA s"
    by (simp_all add: s1_def)
  have f2: "xScale s2 = xScale s" "yScale s2 = yScale s" "gap s2 = gap s" "offsetR s2 = rR"
    "drawing s2 = drawing s"
    by (simp_all add: s2_def f1)
  have f3: "xScale s3 = xScale s" "yScale s3 = yScale s" "gap s3 = gap s" "offsetR s3 = rR"
    "drawing s3 = drawing s" "offsetA s3 = rA"
    by (simp_all add: s3_def f2)
  have f4: "offsetR s4 = rR" "offsetA s4 = rA" "drawing s4 = drawing s"
    by (simp_all add: s4_def f3)
  have R: "dotGridR noise rR s = Some s1"
    using assms by (simp add: dotGridR_eq s1_def)
  have A: "dotGridA noise rA s2 = Some s3"
    using assms by (simp add: dotGridA_eq s3_def f2)
  have B: "translateAToB noise s3 = Some s4"
    using assms by (simp add: translateAToB_eq s4_def f3)
  have M: "mouseReleased noise rR rA s = Some s4"
    by (simp add: mouseReleased_def R A B s2_def [symmetric])
  have e1: "emitted s s1 = [NoStroke, Fill 0, Fill 255, Rect 512 0 512 512, Fill 0, Random 1000]
               @ dot_calls noise rR (xScale s) (yScale s) (gap s)
                   (gridCells 512 1024 0 512 (gap s))"
    by (simp add: s1_def)
  have e2: "emitted s1 s2 = [Fill 255, Rect 0 512 512 512, Fill 0]
              @ f_calls noise rR (xScale s) (yScale s) 0 None None (map coords (drawing s))"
    by (simp add: s2_def f1)
  have e3: "emitted s2 s3 = [NoStroke, Fill 0, Fill 255, Rect 512 512 512 512, Fill 0, Random 1000]
               @ dot_calls noise rA (xScale s) (yScale s) (gap s)
                   (gridCells 512 1024 512 1024 (gap s))"
    by (simp add: s3_def)
  have e4: "emitted s3 s4 = [Fill 255, Rect 0 1024 512 512]
    @ translate_calls noise rA (xScale s) (yScale s) None None
        (gridCells 512 1024 512 1024 (gap s))"
    by (simp add: s4_def)
  have c1: "calls s1 = calls s @ emitted s s1"
    unfolding e1 by (simp add: s1_def)
  have c2: "calls s2 = calls s1 @ emitted s1 s2"
    unfolding e2 by (simp add: s2_def f_eq f1)
  have c3: "calls s3 = calls s2 @ emitted s2 s3"
    unfolding e3 by (simp add: s3_def)
  have c4: "calls s4 = calls s3 @ emitted s3 s4"
    unfolding e4 by (simp add: s4_def)
  have e: "emitted s s4 = emitted s s1 @ emitted s1 s2 @ emitted s2 s3 @ emitted s3 s4"
    by (subst (1) emitted_def) (simp add: c4 c3 c2 c1)
  have pts: "f_points noise s1 =
         map (displaced noise rR (xScale s) (yScale s)) (map coords (drawing s))"
    by (simp add: f_points_eq f1)
  have tpts: "translateAToB_points noise s3 =
         Some (map (displaced noise rA (xScale s) (yScale s)) (gridCells 512 1024 512 1024 (gap s)))"
    using assms by (simp add: translateAToB_points_eq f3)
  from R A B M e e1 e2 e3 e4 pts tpts f1(4) f3(6) f4 show ?thesis
    unfolding s2_def by (intro exI conjI)
qed

lemma circle_centres_Nil [simp]: "circle_centres [] = []"
  by (simp add: circle_centres_def)

lemma circle_centres_Cons [simp]:
  "circle_centres (c # cs) =
     (case c of Circle x y d \<Rightarrow> (x, y) # circle_centres cs | _ \<Rightarrow> circle_centres cs)"
  by (cases c) (simp_all add: circle_centres_def)

lemma circle_centres_dot_calls [simp]:
  "circle_centres (dot_calls noise off sx sy g cells) = cells"
  by (induction cells) auto

section \<open>The claims\<close>

text \<open>
  C1. For every point \<open>p\<close> of the stroke, \<^verbatim>\<open>f\<close> takes one noise sample
  \<open>n = noise ((p.x + offsetR) * xScale) ((p.y + offsetR) * yScale)\<close>, computes one displacement
  \<open>d = map n 0 1 (-10) 10\<close> and produces the point \<open>(p.x + d, p.y + d)\<close>: the log holds exactly
  one call of \<^verbatim>\<open>noise\<close> per point, and the displacement along x equals the displacement
  along y for every transformed point. On the stroke \<open>(100, 100), (110, 100)\<close> with the offset
  0 and the scales 0.015 and 0.02 the two points are moved by \<open>map (noise 1.5 2) 0 1 (-10) 10\<close>
  and by \<open>map (noise 1.65 2) 0 1 (-10) 10\<close>, each along both axes.
\<close>

theorem f_same_displacement_on_both_axes:
  "list_all2
     (\<lambda>p q. \<exists>n d.
        n = noise ((ptx p + offsetR s) * xScale s) ((pty p + offsetR s) * yScale s)
        \<and> d = map_range n 0 1 (-10) 10
        \<and> q = \<lparr>ptx = ptx p + d, pty = pty p + d\<rparr>)
     (drawing s) (f_points noise s)
   \<and> noise_calls (emitted s (f noise s)) =
       map (\<lambda>p. ((ptx p + offsetR s) * xScale s, (pty p + offsetR s) * yScale s)) (drawing s)
   \<and> list_all2 (\<lambda>p q. ptx q - ptx p = pty q - pty p) (drawing s) (f_points noise s)
   \<and> f_points noise (example_stroke\<lparr>offsetR := 0\<rparr>) =
       [\<lparr>ptx = 100 + map_range (noise (3 / 2) 2) 0 1 (-10) 10,
         pty = 100 + map_range (noise (3 / 2) 2) 0 1 (-10) 10\<rparr>,
        \<lparr>ptx = 110 + map_range (noise (33 / 20) 2) 0 1 (-10) 10,
         pty = 100 + map_range (noise (33 / 20) 2) 0 1 (-10) 10\<rparr>]"
proof -
  have "f_points noise (example_stroke\<lparr>offsetR := 0\<rparr>) =
       [\<lparr>ptx = 100 + map_range (noise (3 / 2) 2) 0 1 (-10) 10,
         pty = 100 + map_range (noise (3 / 2) 2) 0 1 (-10) 10\<rparr>,
        \<lparr>ptx = 110 + map_range (noise (33 / 20) 2) 0 1 (-10) 10,
         pty = 100 + map_range (noise (33 / 20) 2) 0 1 (-10) 10\<rparr>]"
    by (simp add: f_points_eq example_stroke_def initial_def displaced_def sample_def coords_def)
  then show ?thesis
    by (simp add: f_points_eq list_all2_conv_all_nth displaced_def coords_def sample_def
        sample_args_def comp_def)
qed

text \<open>
  C2. In the grid renderers (\<^verbatim>\<open>dotGridR\<close>, \<^verbatim>\<open>dotGridA\<close>), in the stroke transformer \<^verbatim>\<open>f\<close>
  and in \<^verbatim>\<open>translateAToB\<close>, every call of \<^verbatim>\<open>noise\<close> has the arguments
  \<open>((x + offset) * xScale, (y + offset) * yScale)\<close>: the offset is added to the coordinate before
  the scaling. The arguments are not \<open>(x * xScale + offset, y * yScale + offset)\<close>, which differ
  as soon as the offset is not 0 and the scale is not 1.
\<close>

theorem noise_sampled_at_offset_then_scale:
  assumes "0 < gap s"
  shows
  "(\<exists>s'. dotGridR noise r s = Some s'
      \<and> noise_calls (emitted s s') =
          map (\<lambda>(x, y). ((x + r) * xScale s, (y + r) * yScale s))
            (gridCells 512 1024 0 512 (gap s)))
   \<and> (\<exists>s'. dotGridA noise r s = Some s'
      \<and> noise_calls (emitted s s') =
          map (\<lambda>(x, y). ((x + r) * xScale s, (y + r) * yScale s))
            (gridCells 512 1024 512 1024 (gap s)))
   \<and> noise_calls (emitted s (f noise s)) =
       map (\<lambda>p. ((ptx p + offsetR s) * xScale s, (pty p + offsetR s) * yScale s)) (drawing s)
   \<and> (\<exists>s'. translateAToB noise s = Some s'
      \<and> noise_calls (emitted s s') =
          map (\<lambda>(x, y). ((x + offsetA s) * xScale s, (y + offsetA s) * yScale s))
            (gridCells 512 1024 512 1024 (gap s)))
   \<and> (r \<noteq> 0 \<and> xScale s \<noteq> 1 \<and> gap s < 1024 \<longrightarrow>
        (\<exists>s'. dotGridR noise r s = Some s'
           \<and> noise_calls (emitted s s') \<noteq>
               map (\<lambda>(x, y). (x * xScale s + r, y * yScale s + r))
                 (gridCells 512 1024 0 512 (gap s))))
   \<and> (offsetR s \<noteq> 0 \<and> xScale s \<noteq> 1 \<and> drawing s \<noteq> [] \<longrightarrow>
        noise_calls (emitted s (f noise s)) \<noteq>
          map (\<lambda>p. (ptx p * xScale s + offsetR s, pty p * yScale s + offsetR s)) (drawing s))"
  (is "?R \<and> ?A \<and> ?F \<and> ?T \<and> ?NR \<and> ?NF")
proof -
  have differ: "(x + off) * sx \<noteq> x * sx + off" if "off \<noteq> 0" "sx \<noteq> 1" for x off sx :: real
    using that by (simp add: algebra_simps)
  have R: ?R and A: ?A and T: ?T
    using assms
    by (simp_all add: dotGridR_eq dotGridA_eq translateAToB_eq sample_args_lambda [symmetric])
  have F: ?F
    by (simp add: sample_args_comp)
  have NR: ?NR
  proof (intro impI, elim conjE)
    assume r: "r \<noteq> 0" "xScale s \<noteq> 1" and g: "gap s < 1024"
    have "512 + gap s / 2 < 1024" "0 + gap s / 2 < 512"
      using g by simp_all
    from gridCells_first [OF assms this]
    obtain cs where "gridCells 512 1024 0 512 (gap s) = (512 + gap s / 2, 0 + gap s / 2) # cs"
      by blast
    then show "\<exists>s'. dotGridR noise r s = Some s'
           \<and> noise_calls (emitted s s') \<noteq>
               map (\<lambda>(x, y). (x * xScale s + r, y * yScale s + r))
                 (gridCells 512 1024 0 512 (gap s))"
      using differ [OF r] assms by (simp add: dotGridR_eq)
  qed
  have NF: ?NF
  proof (intro impI, elim conjE)
    assume r: "offsetR s \<noteq> 0" "xScale s \<noteq> 1" and d: "drawing s \<noteq> []"
    then show "noise_calls (emitted s (f noise s)) \<noteq>
          map (\<lambda>p. (ptx p * xScale s + offsetR s, pty p * yScale s + offsetR s)) (drawing s)"
      unfolding F using differ [OF r] by (cases "drawing s") simp_all
  qed
  from R A F T NR NF show ?thesis
    by (intro conjI)
qed

theorem noise_sampled_at_offset_then_scale_witness:
  "0 < gap example_stroke
   \<and> ((100 :: real) \<noteq> 0 \<and> xScale example_stroke \<noteq> 1 \<and> gap example_stroke < 1024)
   \<and> (offsetR example_stroke \<noteq> 0 \<and> xScale example_stroke \<noteq> 1 \<and> drawing example_stroke \<noteq> [])
   \<and> (\<exists>s'. dotGridR flat_noise 100 example_stroke = Some s'
          \<and> noise_calls (emitted example_stroke s') \<noteq>
              map (\<lambda>(x, y). (x * xScale example_stroke + 100, y * yScale example_stroke + 100))
                (gridCells 512 1024 0 512 (gap example_stroke)))
   \<and> noise_calls (emitted example_stroke (f flat_noise example_stroke)) = [(3, 4), (63 / 20, 4)]
   \<and> noise_calls (emitted example_stroke (f flat_noise example_stroke)) \<noteq>
       map (\<lambda>p. (ptx p * xScale example_stroke + offsetR example_stroke,
                 pty p * yScale example_stroke + offsetR example_stroke))
         (drawing example_stroke)"
proof -
  have h1: "0 < gap example_stroke"
    and h2: "(100 :: real) \<noteq> 0 \<and> xScale example_stroke \<noteq> 1 \<and> gap example_stroke < 1024"
    and h3: "offsetR example_stroke \<noteq> 0 \<and> xScale example_stroke \<noteq> 1
             \<and> drawing example_stroke \<noteq> []"
    by (simp_all add: example_stroke_def initial_def)
  note inst = noise_sampled_at_offset_then_scale [OF h1, of flat_noise 100]
  have "noise_calls (emitted example_stroke (f flat_noise example_stroke)) = [(3, 4), (63 / 20, 4)]"
    using inst by (simp add: example_stroke_def initial_def)
  with inst h1 h2 h3 show ?thesis
    by blast
qed

text \<open>
  C3. If every value of the host's \<^verbatim>\<open>noise\<close> lies in \<open>[0, 1)\<close>, then every noise value the
  sketch samples lies in \<open>[0, 1)\<close>, every diameter of a dot (the noise value times the gap) lies
  in \<open>[0, gap]\<close>, and every point is displaced by a value in \<open>[-10, 10]\<close> along each axis, for
  the stroke transformer \<^verbatim>\<open>f\<close> and for \<^verbatim>\<open>translateAToB\<close>, whatever the offsets are.
\<close>

theorem noise_diameter_displacement_ranges:
  assumes "noise_in_range noise" and "0 < gap s"
  shows
  "(\<exists>s'. dotGridR noise r s = Some s'
      \<and> list_all (\<lambda>(a, b). 0 \<le> noise a b \<and> noise a b < 1) (noise_calls (emitted s s'))
      \<and> list_all (\<lambda>(x, y, d). 0 \<le> d \<and> d \<le> gap s) (circles (emitted s s')))
   \<and> (\<exists>s'. dotGridA noise r s = Some s'
      \<and> list_all (\<lambda>(a, b). 0 \<le> noise a b \<and> noise a b < 1) (noise_calls (emitted s s'))
      \<and> list_all (\<lambda>(x, y, d). 0 \<le> d \<and> d \<le> gap s) (circles (emitted s s')))
   \<and> list_all (\<lambda>(a, b). 0 \<le> noise a b \<and> noise a b < 1) (noise_calls (emitted s (f noise s)))
   \<and> list_all2
        (\<lambda>p q. - 10 \<le> ptx q - ptx p \<and> ptx q - ptx p \<le> 10
             \<and> - 10 \<le> pty q - pty p \<and> pty q - pty p \<le> 10)
        (drawing s) (f_points noise s)
   \<and> (\<exists>ps. translateAToB_points noise s = Some ps
      \<and> list_all2
           (\<lambda>(x, y) q. - 10 \<le> ptx q - x \<and> ptx q - x \<le> 10 \<and> - 10 \<le> pty q - y \<and> pty q - y \<le> 10)
           (gridCells 512 1024 512 1024 (gap s)) ps)"
  (is "?R \<and> ?A \<and> ?F \<and> ?P \<and> ?T")
proof -
  have range: "list_all (\<lambda>(a, b). 0 \<le> noise a b \<and> noise a b < 1) cs" for cs
    using assms(1) by (simp add: list_all_iff noise_in_range_def)
  have diam: "list_all (\<lambda>(x, y, d). 0 \<le> d \<and> d \<le> gap s)
                (map (\<lambda>(x, y). (x, y, sample noise off (xScale s) (yScale s) (x, y) * gap s)) cs)"
    for off cs
    using diameter_bounds [OF assms] by (simp add: list_all_iff split_beta)
  have R: ?R and A: ?A
    using assms(2) range diam by (simp_all add: dotGridR_eq dotGridA_eq)
  have F: ?F
    by (rule range)
  have P: ?P
    using displaced_bounds_pair [OF assms(1)]
    by (simp add: f_points_eq list_all2_conv_all_nth coords_def)
  have T: ?T
    using displaced_bounds [OF assms(1)] assms(2)
    by (simp add: translateAToB_points_eq list_all2_conv_all_nth split_beta)
  from R A F P T show ?thesis
    by (intro conjI)
qed

theorem noise_diameter_displacement_ranges_witness:
  "noise_in_range flat_noise \<and> 0 < gap example_stroke
   \<and> (\<exists>s'. dotGridR flat_noise 7 example_stroke = Some s'
      \<and> list_all (\<lambda>(a, b). 0 \<le> flat_noise a b \<and> flat_noise a b < 1)
            (noise_calls (emitted example_stroke s'))
      \<and> list_all (\<lambda>(x, y, d). 0 \<le> d \<and> d \<le> gap example_stroke)
            (circles (emitted example_stroke s')))
   \<and> list_all2
        (\<lambda>p q. - 10 \<le> ptx q - ptx p \<and> ptx q - ptx p \<le> 10
             \<and> - 10 \<le> pty q - pty p \<and> pty q - pty p \<le> 10)
        (drawing example_stroke) (f_points flat_noise example_stroke)"
proof -
  have h1: "noise_in_range flat_noise"
    by (simp add: noise_in_range_def flat_noise_def)
  have h2: "0 < gap example_stroke"
    by (simp add: example_stroke_def initial_def)
  from noise_diameter_displacement_ranges [OF h1 h2, of 7] h1 h2 show ?thesis
    by blast
qed

text \<open>
  C4. For a stroke of \<open>N\<close> points, \<^verbatim>\<open>f\<close> computes exactly \<open>N\<close> transformed points, the
  \<open>i\<close>-th one from the \<open>i\<close>-th input point, so in the order of the input; it joins them with
  \<open>N - 1\<close> segments (none for \<open>N = 0\<close> and \<open>N = 1\<close>) and never calls \<^verbatim>\<open>line\<close> with an undefined
  argument.
\<close>

theorem f_one_point_per_input_point:
  "length (f_points noise s) = length (drawing s)
   \<and> f_points noise s =
       map (\<lambda>p. displaced noise (offsetR s) (xScale s) (yScale s) (ptx p, pty p)) (drawing s)
   \<and> length (lines (emitted s (f noise s))) = length (drawing s) - 1
   \<and> LineUndefined \<notin> set (emitted s (f noise s))
   \<and> f_points noise (s\<lparr>drawing := []\<rparr>) = []
   \<and> length (f_points noise (s\<lparr>drawing := [p]\<rparr>)) = 1
   \<and> lines (emitted (s\<lparr>drawing := [p]\<rparr>) (f noise (s\<lparr>drawing := [p]\<rparr>))) = []"
  by (simp add: f_points_eq lines_f_calls_0 undefined_f_calls_0 coords_def comp_def)



text \<open>
  C6. A reseed changes only its own field. \<^verbatim>\<open>dotGridR\<close> stores its new offset in
  \<^verbatim>\<open>offsetR\<close> and leaves \<^verbatim>\<open>offsetA\<close> as it was, and all that \<^verbatim>\<open>translateAToB\<close> (which samples
  with \<^verbatim>\<open>offsetA\<close> only) computes and draws afterwards is what it would have computed and drawn
  before; \<^verbatim>\<open>dotGridA\<close> stores its new offset in \<^verbatim>\<open>offsetA\<close> and leaves \<^verbatim>\<open>offsetR\<close> as it was,
  and all that \<^verbatim>\<open>f\<close> (which samples with \<^verbatim>\<open>offsetR\<close> only) computes and draws is unchanged.
\<close>

theorem reseed_leaves_other_field:
  assumes "0 < gap s"
  shows
  "(\<exists>s'. dotGridR noise r s = Some s'
      \<and> offsetR s' = r \<and> offsetA s' = offsetA s
      \<and> map_option (emitted s') (translateAToB noise s') =
          map_option (emitted s) (translateAToB noise s)
      \<and> translateAToB_points noise s' = translateAToB_points noise s)
   \<and> (\<exists>s'. dotGridA noise r s = Some s'
      \<and> offsetA s' = r \<and> offsetR s' = offsetR s
      \<and> emitted s' (f noise s') = emitted s (f noise s)
      \<and> f_points noise s' = f_points noise s)"
  using assms
  by (simp add: dotGridR_eq dotGridA_eq translateAToB_eq translateAToB_points_eq f_points_eq)

theorem reseed_leaves_other_field_witness:
  "0 < gap example_stroke
   \<and> (\<exists>s'. dotGridR flat_noise 7 example_stroke = Some s'
      \<and> offsetR s' = 7 \<and> offsetA s' = offsetA example_stroke
      \<and> map_option (emitted s') (translateAToB flat_noise s') =
          map_option (emitted example_stroke) (translateAToB flat_noise example_stroke)
      \<and> translateAToB_points flat_noise s' = translateAToB_points flat_noise example_stroke)
   \<and> (\<exists>s'. dotGridA flat_noise 7 example_stroke = Some s'
      \<and> offsetA s' = 7 \<and> offsetR s' = offsetR example_stroke
      \<and> emitted s' (f flat_noise s') = emitted example_stroke (f flat_noise example_stroke)
      \<and> f_points flat_noise s' = f_points flat_noise example_stroke)"
proof -
  have h: "0 < gap example_stroke"
    by (simp add: example_stroke_def initial_def)
  from h reseed_leaves_other_field [OF h, of flat_noise 7] show ?thesis
    by (rule conjI)
qed

text \<open>
  C7 (as amended). No grid loop checks the gap and none signals an error. The gap of the sketch
  is the constant 20, with which \<^verbatim>\<open>dotGridR\<close>, \<^verbatim>\<open>dotGridA\<close> and \<^verbatim>\<open>translateAToB\<close> return; with a
  gap that is zero or negative they never return.
\<close>

theorem grid_loops_return_at_gap_20_and_never_at_gap_le_0:
  "gap initial = 20
   \<and> (gap s = 20 \<longrightarrow>
        dotGridR noise r s \<noteq> None \<and> dotGridA noise r s \<noteq> None \<and> translateAToB noise s \<noteq> None)
   \<and> (gap s \<le> 0 \<longrightarrow>
        dotGridR noise r s = None \<and> dotGridA noise r s = None \<and> translateAToB noise s = None)"
  by (simp add: initial_def dotGridR_eq dotGridA_eq translateAToB_eq
      dotGridR_diverges dotGridA_diverges translateAToB_diverges)

theorem grid_loops_return_at_gap_20_and_never_at_gap_le_0_witness:
  "gap initial = 20
   \<and> dotGridR flat_noise 7 initial \<noteq> None \<and> dotGridA flat_noise 7 initial \<noteq> None
   \<and> translateAToB flat_noise initial \<noteq> None
   \<and> gap (initial\<lparr>gap := - 20\<rparr>) \<le> 0
   \<and> dotGridR flat_noise 7 (initial\<lparr>gap := - 20\<rparr>) = None
   \<and> dotGridA flat_noise 7 (initial\<lparr>gap := - 20\<rparr>) = None
   \<and> translateAToB flat_noise (initial\<lparr>gap := - 20\<rparr>) = None"
proof -
  have pos: "gap initial = 20" and neg: "gap (initial\<lparr>gap := - 20\<rparr>) \<le> 0"
    by (simp_all add: initial_def)
  from grid_loops_return_at_gap_20_and_never_at_gap_le_0 [of initial flat_noise 7]
    grid_loops_return_at_gap_20_and_never_at_gap_le_0 [of "initial\<lparr>gap := - 20\<rparr>" flat_noise 7]
    pos neg
  show ?thesis
    by blast
qed

text \<open>
  C7 as stated fails: with the gap 0 the renderer \<^verbatim>\<open>dotGridR\<close> does not reject its input, it
  loops for ever.
\<close>

theorem dotGridR_zero_gap_never_returns:
  "dotGridR flat_noise 0 (initial\<lparr>gap := 0\<rparr>) = None"
  by (rule dotGridR_diverges) simp

text \<open>
  C8. \<^verbatim>\<open>resetLeftSide\<close> empties the stroke and leaves both noise offsets as they were; a
  run of \<^verbatim>\<open>f\<close> on the state after the reset computes no point and only clears its board.
  \<^verbatim>\<open>mousePressed\<close>, which resets on a double click inside the left board, empties the stroke
  then and only then, and never writes an offset.
\<close>

theorem resetLeftSide_clears_the_stroke_only:
  "drawing (resetLeftSide s) = []
   \<and> offsetR (resetLeftSide s) = offsetR s
   \<and> offsetA (resetLeftSide s) = offsetA s
   \<and> f_points noise (resetLeftSide s) = []
   \<and> emitted (resetLeftSide s) (f noise (resetLeftSide s)) = [Fill 255, Rect 0 512 512 512, Fill 0]
   \<and> drawing (mousePressed millis mouseX mouseY s) =
       (if millis - lastClickTime s < doubleClickThreshold s \<and> mouseX \<le> 512 \<and> mouseY \<le> 512
        then [] else drawing s)
   \<and> offsetR (mousePressed millis mouseX mouseY s) = offsetR s
   \<and> offsetA (mousePressed millis mouseX mouseY s) = offsetA s"
  by (simp add: resetLeftSide_def mousePressed_def Let_def f_points_eq)

text \<open>
  C9 (as amended). On every pointer-up, \<^verbatim>\<open>mouseReleased\<close> runs, in this order, \<^verbatim>\<open>dotGridR\<close>
  (one reseed of R, then one render of the grid of R with the new offset), \<^verbatim>\<open>f\<close> (one
  transform, of the captured stroke, with the new offset of R), \<^verbatim>\<open>dotGridA\<close> (one reseed of A,
  then one render of the grid of A with the new offset) and \<^verbatim>\<open>translateAToB\<close> (one transform, of
  the grid points of A, with the new offset of A). Each field is reseeded exactly once, before
  its own render and its own transform; \<^verbatim>\<open>random\<close> is called exactly twice.
\<close>

theorem mouseReleased_reseeds_each_field_before_its_own_use:
  assumes "0 < gap s"
  shows
  "\<exists>s1 s3 s4.
     dotGridR noise rR s = Some s1
     \<and> dotGridA noise rA (f noise s1) = Some s3
     \<and> translateAToB noise s3 = Some s4
     \<and> mouseReleased noise rR rA s = Some s4
     \<and> emitted s s4 =
         emitted s s1 @ emitted s1 (f noise s1) @ emitted (f noise s1) s3 @ emitted s3 s4
     \<and> randoms (emitted s s4) = [1000, 1000]
     \<and> randoms (emitted s s1) = [1000] \<and> offsetR s1 = rR \<and> reseeds_first (emitted s s1)
     \<and> circles (emitted s s1) =
         map (\<lambda>(x, y). (x, y, noise ((x + rR) * xScale s) ((y + rR) * yScale s) * gap s))
           (gridCells 512 1024 0 512 (gap s))
     \<and> randoms (emitted s1 (f noise s1)) = []
     \<and> f_points noise s1 =
         map (\<lambda>p. displaced noise rR (xScale s) (yScale s) (ptx p, pty p)) (drawing s)
     \<and> randoms (emitted (f noise s1) s3) = [1000] \<and> offsetA s3 = rA
     \<and> reseeds_first (emitted (f noise s1) s3)
     \<and> circles (emitted (f noise s1) s3) =
         map (\<lambda>(x, y). (x, y, noise ((x + rA) * xScale s) ((y + rA) * yScale s) * gap s))
           (gridCells 512 1024 512 1024 (gap s))
     \<and> randoms (emitted s3 s4) = []
     \<and> translateAToB_points noise s3 =
         Some (map (displaced noise rA (xScale s) (yScale s)) (gridCells 512 1024 512 1024 (gap s)))
     \<and> offsetR s4 = rR \<and> offsetA s4 = rA \<and> drawing s4 = drawing s"
proof -
  from mouseReleased_steps [OF assms, of noise rR rA]
  obtain s1 s3 s4 where
    run: "dotGridR noise rR s = Some s1" "dotGridA noise rA (f noise s1) = Some s3"
      "translateAToB noise s3 = Some s4" "mouseReleased noise rR rA s = Some s4"
    and e: "emitted s s4 =
         emitted s s1 @ emitted s1 (f noise s1) @ emitted (f noise s1) s3 @ emitted s3 s4"
    and e1: "emitted s s1 =
         [NoStroke, Fill 0, Fill 255, Rect 512 0 512 512, Fill 0, Random 1000]
         @ dot_calls noise rR (xScale s) (yScale s) (gap s) (gridCells 512 1024 0 512 (gap s))"
    and e2: "emitted s1 (f noise s1) =
         [Fill 255, Rect 0 512 512 512, Fill 0]
         @ f_calls noise rR (xScale s) (yScale s) 0 None None (map coords (drawing s))"
    and e3: "emitted (f noise s1) s3 =
         [NoStroke, Fill 0, Fill 255, Rect 512 512 512 512, Fill 0, Random 1000]
         @ dot_calls noise rA (xScale s) (yScale s) (gap s) (gridCells 512 1024 512 1024 (gap s))"
    and e4: "emitted s3 s4 =
         [Fill 255, Rect 0 1024 512 512]
         @ translate_calls noise rA (xScale s) (yScale s) None None
             (gridCells 512 1024 512 1024 (gap s))"
    and pts: "f_points noise s1 =
         map (displaced noise rR (xScale s) (yScale s)) (map coords (drawing s))"
    and tpts: "translateAToB_points noise s3 =
         Some (map (displaced noise rA (xScale s) (yScale s)) (gridCells 512 1024 512 1024 (gap s)))"
    and offs: "offsetR s1 = rR" "offsetA s3 = rA" "offsetR s4 = rR" "offsetA s4 = rA"
      "drawing s4 = drawing s"
    by blast
  have r1: "randoms (emitted s s1) = [1000]" and r2: "randoms (emitted s1 (f noise s1)) = []"
    and r3: "randoms (emitted (f noise s1) s3) = [1000]" and r4: "randoms (emitted s3 s4) = []"
    unfolding e1 e2 e3 e4 by simp_all
  have r: "randoms (emitted s s4) = [1000, 1000]"
    unfolding e by (simp add: r1 r2 r3 r4 del: emitted_f)
  have o1: "reseeds_first (emitted s s1)" and o3: "reseeds_first (emitted (f noise s1) s3)"
    unfolding e1 e3 by (rule reseeds_first_grid)+
  have c1: "circles (emitted s s1) =
         map (\<lambda>(x, y). (x, y, noise ((x + rR) * xScale s) ((y + rR) * yScale s) * gap s))
           (gridCells 512 1024 0 512 (gap s))"
    and c3: "circles (emitted (f noise s1) s3) =
         map (\<lambda>(x, y). (x, y, noise ((x + rA) * xScale s) ((y + rA) * yScale s) * gap s))
           (gridCells 512 1024 512 1024 (gap s))"
    unfolding e1 e3 by (simp_all add: sample_def sample_args_def split_beta)
  have pts': "f_points noise s1 =
         map (\<lambda>p. displaced noise rR (xScale s) (yScale s) (ptx p, pty p)) (drawing s)"
    unfolding pts by (simp add: coords_def comp_def)
  from run e r r1 offs(1) o1 c1 r2 pts' r3 offs(2) o3 c3 r4 tpts offs(3-5) show ?thesis
    by (intro exI conjI)
qed

theorem mouseReleased_reseeds_each_field_before_its_own_use_witness:
  "0 < gap example_stroke
   \<and> (\<exists>s1 s3 s4.
     dotGridR flat_noise 1 example_stroke = Some s1
     \<and> dotGridA flat_noise 2 (f flat_noise s1) = Some s3
     \<and> translateAToB flat_noise s3 = Some s4
     \<and> mouseReleased flat_noise 1 2 example_stroke = Some s4
     \<and> randoms (emitted example_stroke s4) = [1000, 1000]
     \<and> offsetR s4 = 1 \<and> offsetA s4 = 2)"
proof -
  have h: "0 < gap example_stroke"
    by (simp add: example_stroke_def initial_def)
  from mouseReleased_reseeds_each_field_before_its_own_use [OF h, of flat_noise 1 2] h
  show ?thesis
    by blast
qed

text \<open>
  C9 as stated fails where it puts the reseeds of all fields before the renders and the
  transforms: the reseed of A comes after the grid of R has been sampled and drawn.
\<close>

theorem mouseReleased_reseeds_A_after_sampling_R:
  "map_option reseeds_first (released_calls flat_noise 1 2 initial) = Some False"
proof -
  have g: "0 < gap initial" "512 + gap initial / 2 < 1024" "0 + gap initial / 2 < 512"
    by (simp_all add: initial_def)
  from gridCells_first [OF g]
  obtain cs where "gridCells 512 1024 0 512 (gap initial) =
      (512 + gap initial / 2, 0 + gap initial / 2) # cs"
    by blast
  then show ?thesis
    by (simp add: released_calls_def mouseReleased_eq [OF g(1)] emitted_def reseeds_first_def)
qed



end
